theory Spec2Isabelle
  imports Complex_Main "HOL-Library.Sublist" "HOL-Library.Multiset"
    "HOL-Library.List_Lexorder" "HOL-Library.Product_Lexorder"
begin

section \<open>Python strings\<close>

text \<open>
  A Python \<open>str\<close> is a sequence of Unicode code points, so it is modelled as a list of
  natural numbers. \<open>str_of\<close> turns an ASCII literal into such a list. The source's literals
  that are not ASCII are given by their code points.
\<close>

type_synonym str = "nat list"

definition str_of :: "string \<Rightarrow> str" where
  "str_of s = map of_char s"

text \<open>\<open>str.isspace\<close> for one code point; the regular expression class \<open>\s\<close> on a
  \<open>str\<close> pattern matches the same code points.\<close>

definition isspace :: "nat \<Rightarrow> bool" where
  "isspace c = ((9 \<le> c \<and> c \<le> 13) \<or> (28 \<le> c \<and> c \<le> 32) \<or> c = 133 \<or> c = 160
     \<or> c = 5760 \<or> (8192 \<le> c \<and> c \<le> 8202) \<or> c = 8232 \<or> c = 8233 \<or> c = 8239
     \<or> c = 8287 \<or> c = 12288)"

text \<open>\<open>s.startswith(p)\<close> and \<open>s.endswith(p)\<close>.\<close>

definition startswith :: "str \<Rightarrow> str \<Rightarrow> bool" where
  "startswith s p = (take (length p) s = p)"

definition endswith :: "str \<Rightarrow> str \<Rightarrow> bool" where
  "endswith s p = (length p \<le> length s \<and> drop (length s - length p) s = p)"

text \<open>\<open>sep.join(xs)\<close>.\<close>

fun join :: "str \<Rightarrow> str list \<Rightarrow> str" where
  "join sep [] = []"
| "join sep [x] = x"
| "join sep (x # y # ys) = x @ sep @ join sep (y # ys)"

text \<open>\<open>s.strip()\<close>: leading and trailing whitespace removed.\<close>

definition lstrip :: "str \<Rightarrow> str" where
  "lstrip s = dropWhile isspace s"

definition rstrip :: "str \<Rightarrow> str" where
  "rstrip s = rev (dropWhile isspace (rev s))"

definition strip :: "str \<Rightarrow> str" where
  "strip s = rstrip (lstrip s)"

text \<open>\<open>s.split()\<close>: the maximal runs of non-whitespace code points, in order.
  \<open>split_from cur s\<close> scans \<open>s\<close> with the current run \<open>cur\<close>.\<close>

fun split_from :: "str \<Rightarrow> str \<Rightarrow> str list" where
  "split_from cur [] = (if cur = [] then [] else [cur])"
| "split_from cur (c # cs) =
     (if isspace c then (if cur = [] then split_from [] cs else cur # split_from [] cs)
      else split_from (cur @ [c]) cs)"

definition split :: "str \<Rightarrow> str list" where
  "split s = split_from [] s"

text \<open>\<open>s.replace(",", "")\<close>: every comma removed.\<close>

definition remove_commas :: "str \<Rightarrow> str" where
  "remove_commas s = filter (\<lambda>c. c \<noteq> 44) s"

text \<open>\<open>re.sub(r"\s+", "", s)\<close>: every whitespace code point removed.\<close>

definition sub_spaces :: "str \<Rightarrow> str" where
  "sub_spaces s = filter (\<lambda>c. \<not> isspace c) s"

text \<open>\<open>re.sub(r"\s{2,}", "", s)\<close>: every maximal run of two or more whitespace code
  points removed; a single whitespace code point stays. \<open>sub_runs_from run s\<close> scans
  \<open>s\<close> with the whitespace run \<open>run\<close> read so far.\<close>

fun sub_runs_from :: "str \<Rightarrow> str \<Rightarrow> str" where
  "sub_runs_from run [] = (if length run = 1 then run else [])"
| "sub_runs_from run (c # cs) =
     (if isspace c then sub_runs_from (run @ [c]) cs
      else (if length run = 1 then run else []) @ c # sub_runs_from [] cs)"

definition sub_space_runs :: "str \<Rightarrow> str" where
  "sub_space_runs s = sub_runs_from [] s"

section \<open>Building the query: \<open>Spider.parseData\<close>\<close>

text \<open>The two non-ASCII literals tested on \<open>sorting\<close>: the two-character prefix that selects
  sorting by date (U+65E5 U+671F) and the two-character suffix that selects reverse order
  (U+9006 U+5E8F).\<close>

definition sort_by_date_prefix :: str where
  "sort_by_date_prefix = [26085, 26399]"

definition reverse_order_suffix :: str where
  "reverse_order_suffix = [36870, 24207]"

text \<open>The payload is a dictionary from \<open>str\<close> to \<open>str\<close>. An empty \<open>str\<close> is falsy.\<close>

definition parseData :: "str \<Rightarrow> str \<Rightarrow> str \<Rightarrow> str \<Rightarrow> str \<Rightarrow> str \<Rightarrow> (str \<rightharpoonup> str)" where
  "parseData keyword start_year end_year author journal sorting =
     (let term0 = [keyword];
          term1 = (if start_year \<noteq> [] \<and> end_year \<noteq> []
                   then term0 @ [start_year @ str_of '':'' @ end_year @ str_of ''[dp]'']
                   else term0);
          term2 = (if author \<noteq> [] then term1 @ [author @ str_of ''[author]''] else term1);
          term3 = (if journal \<noteq> [] then term2 @ [journal @ str_of ''[journal]''] else term2);
          data0 = [str_of ''term'' \<mapsto> join (str_of '' AND '') term3];
          data1 = (if startswith sorting sort_by_date_prefix
                   then data0(str_of ''sort'' \<mapsto> str_of ''date'') else data0);
          data2 = (if endswith sorting reverse_order_suffix
                   then data1(str_of ''sort_order'' \<mapsto> str_of ''asc'') else data1)
      in data2)"

text \<open>The term field as the specification words it: the keyword clause, the date clause and
  the author clause, in this order, each present exactly when its parameter is non-empty
  (the date clause has two parameters and is taken to need both).\<close>

definition spec_term :: "str \<Rightarrow> str \<Rightarrow> str \<Rightarrow> str \<Rightarrow> str" where
  "spec_term keyword start_year end_year author =
     join (str_of '' AND '')
       ((if keyword \<noteq> [] then [keyword] else [])
        @ (if start_year \<noteq> [] \<and> end_year \<noteq> []
           then [start_year @ str_of '':'' @ end_year @ str_of ''[dp]''] else [])
        @ (if author \<noteq> [] then [author @ str_of ''[author]''] else []))"

section \<open>Exceptions and outcomes\<close>

text \<open>
  The exceptions that the modelled code raises or meets. All of them are subclasses of
  Python's \<open>Exception\<close>; \<open>TipException\<close> carries its message and \<open>OtherException\<close> stands
  for any further \<open>Exception\<close> that the HTTP client or the parser raises.
  A call either returns, raises, or blocks for ever on a full queue.
\<close>

datatype exn =
    TimeoutError
  | TipException str
  | AttributeError
  | UnboundLocalError
  | TypeError
  | KeyError
  | OtherException

datatype 'a outcome = Returns 'a | Raises exn | Blocks

text \<open>What a request gives: the parsed page, or the exception raised while fetching or
  parsing it.\<close>

datatype 'p response = Responds 'p | Fails exn

text \<open>The message of the timeout \<open>TipException\<close> (U+8FDE U+63A5 U+8D85 U+65F6) and of the
  one raised when no paper is found (U+672A U+627E U+5230 U+76F8 U+5173 U+6587 U+732E).\<close>

definition timeout_msg :: str where
  "timeout_msg = [36830, 25509, 36229, 26102]"

definition not_found_msg :: str where
  "not_found_msg = [26410, 25214, 21040, 30456, 20851, 25991, 29486]"

section \<open>Counting the results: \<open>Spider.getTotalPaperNum\<close>\<close>

text \<open>
  \<open>getTotalPaperNum\<close> and \<open>getAllPapers\<close> are coroutines wrapped by the decorator
  \<open>AsyncFunc\<close> of \<open>getpaper.utils\<close>, which runs them; the model is of the coroutines.

  The summary page, as the two lookups of the function see it: whether a \<open>span\<close> of class
  \<open>single-result-redirect-message\<close> exists, and the \<open>div\<close> of class \<open>results-amount\<close>:
  \<open>None\<close> when there is no such \<open>div\<close>, \<open>Some None\<close> when it has no \<open>span\<close> child,
  \<open>Some (Some t)\<close> when its first \<open>span\<close> has the text \<open>t\<close>.
\<close>

record summary_page =
  single_result_redirect :: bool
  results_amount :: "str option option"

text \<open>The returned message: U+5171 U+627E U+5230, the count, U+7BC7.\<close>

definition found_msg :: "str \<Rightarrow> str" where
  "found_msg total_num = [20849, 25214, 21040] @ total_num @ [31687]"

definition getTotalPaperNum :: "summary_page response \<Rightarrow> str outcome" where
  "getTotalPaperNum resp =
     (case resp of
        Fails e \<Rightarrow> (if e = TimeoutError then Raises (TipException timeout_msg) else Raises e)
      | Responds bs \<Rightarrow>
          (if single_result_redirect bs then Returns (found_msg (str_of ''1''))
           else (case results_amount bs of
                   None \<Rightarrow> Raises AttributeError
                 | Some None \<Rightarrow> Returns (found_msg (str_of ''0''))
                 | Some (Some text) \<Rightarrow> Returns (found_msg (remove_commas text)))))"

section \<open>The result queue\<close>

text \<open>
  One record of a paper is the tuple \<open>(title, authors, date, publication, abstract, doi,
  web)\<close>. The entries of the queue are pairs of a rank index and such a record.
\<close>

record paper =
  title :: str
  authors :: str
  date :: str
  publication :: str
  abstract :: str
  doi :: str
  web :: str

type_synonym entry = "int \<times> paper"

text \<open>
  \<open>queue.PriorityQueue\<close> orders its entries as Python orders tuples: by the rank, and on
  equal ranks by the records, field after field; a \<open>str\<close> is compared code point after
  code point, a proper prefix being smaller. \<open>entry_key\<close> is the key of this order, with
  the lexicographic order of pairs and of lists.
\<close>

definition entry_key :: "entry \<Rightarrow> int \<times> str list" where
  "entry_key x =
     (fst x, [title (snd x), authors (snd x), date (snd x), publication (snd x),
              abstract (snd x), doi (snd x), web (snd x)])"

text \<open>
  The queue: \<open>maxsize\<close> and the entries held, kept in ascending order. \<open>put\<close> blocks
  (\<open>None\<close>) when \<open>maxsize\<close> is positive and reached; \<open>get\<close> removes the least entry and
  blocks on an empty queue. No other thread takes entries out while the stage runs.
  The entry that \<open>getPMIDs\<close> puts holds a list, where the tasks put tuples, and Python
  cannot compare the two; here that entry is never compared: it goes into an empty queue,
  which is full from then on.
\<close>

record pqueue =
  maxsize :: int
  items :: "entry list"

definition put :: "pqueue \<Rightarrow> entry \<Rightarrow> pqueue option" where
  "put q x =
     (if 0 < maxsize q \<and> maxsize q \<le> int (length (items q)) then None
      else Some (q\<lparr>items := insort_key entry_key x (items q)\<rparr>))"

definition get :: "pqueue \<Rightarrow> (entry \<times> pqueue) option" where
  "get q = (case items q of [] \<Rightarrow> None | x # xs \<Rightarrow> Some (x, q\<lparr>items := xs\<rparr>))"

text \<open>\<open>[q.get() for _ in range(n)]\<close>.\<close>

fun get_n :: "nat \<Rightarrow> pqueue \<Rightarrow> entry list option" where
  "get_n 0 q = Some []"
| "get_n (Suc n) q =
     (case get q of
        None \<Rightarrow> None
      | Some (x, q') \<Rightarrow> (case get_n n q' of None \<Rightarrow> None | Some xs \<Rightarrow> Some (x # xs)))"

section \<open>Fetching the identifiers: \<open>Spider.getPMIDs\<close>\<close>

text \<open>
  The state of the spider that the fetch stage reads and writes: the page cursor
  \<open>self.data["page"]\<close>, the queue \<open>self.result_queue\<close>, and the listing pages requested so
  far through \<open>self.session.get\<close>. The other fields of \<open>self.data\<close> do not change during
  the stage, so the listing source is a function of the page number: it gives the text of
  the \<open>pre\<close> element of class \<open>search-results-chunk\<close>, \<open>None\<close> when the page has none.
\<close>

record spider =
  data_page :: int
  result_queue :: pqueue
  requested :: "int list"

type_synonym listing = "int \<Rightarrow> str option response"

text \<open>The entry put when no chunk is found: rank 0 and seven times the same text.\<close>

definition not_found_entry :: entry where
  "not_found_entry =
     (let t = str_of ''Not found any papers'' in
      (0, \<lparr>title = t, authors = t, date = t, publication = t, abstract = t, doi = t, web = t\<rparr>))"

text \<open>\<open>xs[:n]\<close>, also for negative \<open>n\<close>.\<close>

definition slice_to :: "'a list \<Rightarrow> int \<Rightarrow> 'a list" where
  "slice_to xs n = (if 0 \<le> n then take (nat n) xs else take (length xs - nat (- n)) xs)"

text \<open>The \<open>while\<close> loop of \<open>getPMIDs\<close>, with the local \<open>pmid_list\<close>; it gives the final
  \<open>pmid_list\<close> and state and how the \<open>try\<close> body ended.\<close>

function pmid_loop :: "listing \<Rightarrow> int \<Rightarrow> str list \<Rightarrow> spider \<Rightarrow> (str list \<times> spider) \<times> unit outcome" where
  "pmid_loop src num pmid_list s =
     (if data_page s \<le> (num - 1) div 200 + 1 then
        (let s1 = s\<lparr>requested := requested s @ [data_page s]\<rparr> in
         case src (data_page s) of
           Fails e \<Rightarrow> ((pmid_list, s1), Raises e)
         | Responds None \<Rightarrow>
             (let q1 = (result_queue s1)\<lparr>maxsize := 1\<rparr> in
              case put q1 not_found_entry of
                None \<Rightarrow> ((pmid_list, s1\<lparr>result_queue := q1\<rparr>), Blocks)
              | Some q2 \<Rightarrow>
                  ((pmid_list, s1\<lparr>result_queue := q2\<rparr>), Raises (TipException not_found_msg)))
         | Responds (Some text) \<Rightarrow>
             (let result = split text;
                  pmid_list1 = pmid_list @ result
              in if length result = 1 then ((pmid_list1, s1), Returns ())
                 else pmid_loop src num pmid_list1 (s1\<lparr>data_page := data_page s1 + 1\<rparr>)))
      else ((pmid_list, s), Returns ()))"
  by pat_completeness auto
termination
  by (relation "measure (\<lambda>(src, num, pmid_list, s). nat ((num - 1) div 200 + 2 - data_page s))") auto

declare pmid_loop.simps [simp del]

text \<open>
  A \<open>return\<close> in a \<open>finally\<close> clause discards the exception that is pending when the clause
  is entered, so the call returns the value.
\<close>

definition finally_return :: "exn option \<Rightarrow> 'a \<Rightarrow> 'a outcome" where
  "finally_return pending v = Returns v"

text \<open>
  \<open>getPMIDs\<close>: the cursor is set to 1 and the loop runs. A \<open>TimeoutError\<close> is replaced by
  the timeout \<open>TipException\<close>, raised inside the handler and so pending; any other
  \<open>Exception\<close>, the \<open>TipException\<close> of the loop included, is logged by the second handler
  (the class \<open>TipException\<close> is defined in \<open>getpaper.utils\<close>; were it no \<open>Exception\<close>, it
  would stay pending, with the same result). Then the \<open>finally\<close> clause returns
  \<open>pmid_list[:num]\<close>.
\<close>

definition getPMIDs :: "listing \<Rightarrow> int \<Rightarrow> spider \<Rightarrow> spider \<times> str list outcome" where
  "getPMIDs src num s =
     (case pmid_loop src num [] (s\<lparr>data_page := 1\<rparr>) of
        ((pmid_list, s'), Blocks) \<Rightarrow> (s', Blocks)
      | ((pmid_list, s'), Raises e) \<Rightarrow>
          (let pending = (if e = TimeoutError then Some (TipException timeout_msg) else None)
           in (s', finally_return pending (slice_to pmid_list num)))
      | ((pmid_list, s'), Returns u) \<Rightarrow> (s', finally_return None (slice_to pmid_list num)))"

section \<open>Fetching one paper: \<open>Spider.getPagesInfo\<close>\<close>

definition base_url :: str where
  "base_url = str_of ''https://pubmed.ncbi.nlm.nih.gov/''"

text \<open>
  The \<open>main\<close> element of class \<open>article-details\<close>, as the lookups of the function see it:
  for each element looked up its text, \<open>None\<close> when it is not found; \<open>authors_iter\<close> is the
  iteration of the set of the link texts of the first five \<open>authors-list-item\<close> spans that
  have a link; \<open>full_text_links\<close> is the first link of the \<open>full-text-links-list\<close> element.
\<close>

datatype anchor = NoAnchor | AnchorWithoutHref | Href str

record article =
  heading_title :: "str option"
  cit :: "str option"
  journal_trigger :: "str option"
  authors_iter :: "str list"
  abstract_content :: "str option"
  doi_link :: "str option"
  full_text_links :: "anchor option"

text \<open>The detail source gives, for a task, the \<open>main\<close> element of the page of its identifier,
  \<open>None\<close> when the page has none.\<close>

type_synonym detail = "nat \<Rightarrow> str \<Rightarrow> article option response"

definition error_record :: "str \<Rightarrow> paper" where
  "error_record pmid =
     (let e = str_of ''Error'' in
      \<lparr>title = e, authors = e, date = e, publication = e, abstract = e, doi = e,
       web = base_url @ pmid\<rparr>)"

text \<open>The fields read in the \<open>else\<close> branch, with \<open>web\<close> still the address of the page.\<close>

definition parsed_record :: "str \<Rightarrow> article \<Rightarrow> paper" where
  "parsed_record pmid content =
     \<lparr>title = (case heading_title content of
                 Some t \<Rightarrow> sub_space_runs t | None \<Rightarrow> str_of ''No Title''),
      authors = join (str_of ''; '') (authors_iter content),
      date = (case cit content of Some t \<Rightarrow> t | None \<Rightarrow> str_of ''No date''),
      publication = (case journal_trigger content of
                       Some t \<Rightarrow> sub_spaces t | None \<Rightarrow> str_of ''No publication''),
      abstract = (case abstract_content content of
                    Some t \<Rightarrow> sub_space_runs t | None \<Rightarrow> str_of ''No Abstract''),
      doi = (case doi_link content of Some t \<Rightarrow> sub_spaces t | None \<Rightarrow> []),
      web = base_url @ pmid\<rparr>"

text \<open>The \<open>finally\<close> clause: the entry is put, then the pending exception, if any, goes on.\<close>

definition put_result :: "pqueue \<Rightarrow> entry \<Rightarrow> exn option \<Rightarrow> pqueue \<times> unit outcome" where
  "put_result q x pending =
     (case put q x of
        None \<Rightarrow> (q, Blocks)
      | Some q' \<Rightarrow> (q', (case pending of None \<Rightarrow> Returns () | Some e \<Rightarrow> Raises e)))"

text \<open>
  \<open>getPagesInfo\<close>. An exception of the fetch sets six fields to \<open>"Error"\<close>. A page without
  the \<open>main\<close> element raises \<open>AttributeError\<close> at the first lookup of the \<open>else\<close> branch, with
  no field assigned, so building the tuple in the \<open>finally\<close> clause raises
  \<open>UnboundLocalError\<close> and nothing is put. A \<open>full-text-links-list\<close> whose link is missing or
  has no \<open>href\<close> raises after all fields are assigned.
\<close>

definition getPagesInfo :: "int \<Rightarrow> str \<Rightarrow> article option response \<Rightarrow> pqueue \<Rightarrow> pqueue \<times> unit outcome" where
  "getPagesInfo index pmid resp q =
     (case resp of
        Fails e \<Rightarrow> put_result q (index, error_record pmid) None
      | Responds None \<Rightarrow> (q, Raises UnboundLocalError)
      | Responds (Some content) \<Rightarrow>
          (let r = parsed_record pmid content in
           case full_text_links content of
             None \<Rightarrow> put_result q (index, r) None
           | Some NoAnchor \<Rightarrow> put_result q (index, r) (Some TypeError)
           | Some AnchorWithoutHref \<Rightarrow> put_result q (index, r) (Some KeyError)
           | Some (Href h) \<Rightarrow> put_result q (index, r\<lparr>web := h\<rparr>) None))"

section \<open>The detail stage: \<open>Spider.getAllPapers\<close>\<close>

text \<open>
  \<open>asyncio.gather\<close> runs the tasks on one thread; each task touches the queue once, in its
  \<open>finally\<close> clause. A run is therefore given by the order in which the tasks reach that
  clause, whatever the delays of \<open>asyncio.sleep\<close> and of the network are, and \<open>gather\<close>
  takes the tasks in this order. The first exception of a task is raised to the caller at
  once. Opening and closing the HTTP session has no part in the results and is left out.
\<close>

fun gather :: "detail \<Rightarrow> (nat \<times> str) list \<Rightarrow> pqueue \<Rightarrow> pqueue \<times> unit outcome" where
  "gather src [] q = (q, Returns ())"
| "gather src ((index, pmid) # rest) q =
     (case getPagesInfo (int index) pmid (src index pmid) q of
        (q', Returns u) \<Rightarrow> gather src rest q'
      | (q', Raises e) \<Rightarrow> (q', Raises e)
      | (q', Blocks) \<Rightarrow> (q', Blocks))"

text \<open>
  \<open>getAllPapers\<close>: \<open>sched\<close> is the scheduler, which puts the tasks built by \<open>enumerate\<close> in
  the order of their completion.
\<close>

definition getAllPapers ::
  "listing \<Rightarrow> detail \<Rightarrow> ((nat \<times> str) list \<Rightarrow> (nat \<times> str) list) \<Rightarrow> pqueue \<Rightarrow> int \<Rightarrow> spider
     \<Rightarrow> spider \<times> unit outcome" where
  "getAllPapers lst det sched queue num0 s =
     (let s0 = s\<lparr>result_queue := queue\<rparr>;
          num = max num0 1
      in case getPMIDs lst num s0 of
           (s1, Returns pmids) \<Rightarrow>
             (let tasks = enumerate 0 pmids in
              case gather det (sched tasks) (result_queue s1) of
                (q, r) \<Rightarrow> (s1\<lparr>result_queue := q\<rparr>, r))
         | (s1, Raises e) \<Rightarrow> (s1, Raises e)
         | (s1, Blocks) \<Rightarrow> (s1, Blocks))"

section \<open>Loading identifiers from a file: \<open>MenuBar.downloadByDoiFile\<close>\<close>

text \<open>
  A download descriptor is the list \<open>[title, None, doi, None]\<close>. The loop over the lines
  read by \<open>readlines\<close>, each with its line end, keeps the lines that start with \<open>"10."\<close>.
\<close>

type_synonym descriptor = "str option list"

fun doi_details :: "str list \<Rightarrow> descriptor list" where
  "doi_details [] = []"
| "doi_details (line # rest) =
     (if \<not> startswith line (str_of ''10.'') then doi_details rest
      else (let doi1 = strip line in
            [Some (strip doi1), None, Some (strip doi1), None] # doi_details rest))"

text \<open>\<open>downloadByDoiFile\<close>: \<open>None\<close> is a cancelled file dialog; otherwise the result is the
  list of descriptors handed to \<open>downloadAll\<close>.\<close>

definition downloadByDoiFile :: "str list option \<Rightarrow> descriptor list option" where
  "downloadByDoiFile file = (case file of None \<Rightarrow> None | Some dois \<Rightarrow> Some (doi_details dois))"

section \<open>Vocabulary of the properties\<close>

text \<open>The identifiers of a listing page: the tokens of its chunk, none when the request
  fails or the page has no chunk.\<close>

definition page_ids :: "listing \<Rightarrow> int \<Rightarrow> str list" where
  "page_ids src p = (case src p of Responds (Some text) \<Rightarrow> split text | _ \<Rightarrow> [])"

text \<open>A page lets the loop go on when it has a chunk whose number of tokens is not 1;
  a full page has 200 tokens; \<open>has_chunk\<close> says that the chunk exists.\<close>

definition continues :: "listing \<Rightarrow> int \<Rightarrow> bool" where
  "continues src p = (case src p of Responds (Some text) \<Rightarrow> length (split text) \<noteq> 1 | _ \<Rightarrow> False)"

definition full_page :: "listing \<Rightarrow> int \<Rightarrow> bool" where
  "full_page src p = (case src p of Responds (Some text) \<Rightarrow> length (split text) = 200 | _ \<Rightarrow> False)"

definition has_chunk :: "listing \<Rightarrow> int \<Rightarrow> bool" where
  "has_chunk src p = (case src p of Responds (Some text) \<Rightarrow> True | _ \<Rightarrow> False)"

text \<open>A task completes when its fetch raises an \<open>Exception\<close>, which the handler catches,
  or when the page has the \<open>main\<close> element and the full-text link, if the list of links
  exists, has an \<open>href\<close>.\<close>

definition completes :: "article option response \<Rightarrow> bool" where
  "completes resp =
     (case resp of
        Fails e \<Rightarrow> True
      | Responds None \<Rightarrow> False
      | Responds (Some content) \<Rightarrow>
          (case full_text_links content of
             Some NoAnchor \<Rightarrow> False
           | Some AnchorWithoutHref \<Rightarrow> False
           | _ \<Rightarrow> True))"

text \<open>What a task emits: the entries it puts into an empty queue without bound; and the
  entries of a batch of tasks, in the order of the tasks.\<close>

definition emits :: "nat \<Rightarrow> str \<Rightarrow> article option response \<Rightarrow> entry list" where
  "emits index pmid resp =
     items (fst (getPagesInfo (int index) pmid resp \<lparr>maxsize = 0, items = []\<rparr>))"

definition batch_entries :: "detail \<Rightarrow> (nat \<times> str) list \<Rightarrow> entry list" where
  "batch_entries det tasks = concat (map (\<lambda>(index, pmid). emits index pmid (det index pmid)) tasks)"

text \<open>
  The lines of an identifier file: an identifier followed by whitespace (its line end),
  or a garbage line. A line is well formed when the identifier starts with \<open>"10."\<close> and
  does not end in whitespace, and when a garbage line does not start with \<open>"10."\<close>.
\<close>

datatype file_line = Identifier str str | Garbage str

fun render :: "file_line \<Rightarrow> str" where
  "render (Identifier d ws) = d @ ws"
| "render (Garbage g) = g"

fun well_formed :: "file_line \<Rightarrow> bool" where
  "well_formed (Identifier d ws) =
     (startswith d (str_of ''10.'') \<and> \<not> isspace (last d) \<and> list_all isspace ws)"
| "well_formed (Garbage g) = (\<not> startswith g (str_of ''10.''))"

fun identifiers :: "file_line list \<Rightarrow> str list" where
  "identifiers [] = []"
| "identifiers (Identifier d ws # ls) = d # identifiers ls"
| "identifiers (Garbage g # ls) = identifiers ls"

text \<open>A detail page with a title and two authors, for the examples.\<close>

definition page_a :: article where
  "page_a = \<lparr>heading_title = Some (str_of ''A  title''), cit = None, journal_trigger = None,
     authors_iter = [str_of ''A'', str_of ''B''], abstract_content = None, doi_link = None,
     full_text_links = None\<rparr>"

section \<open>Properties of \<open>parseData\<close>\<close>

lemma str_of_neq: "str_of ''sort'' \<noteq> str_of ''term''" "str_of ''sort_order'' \<noteq> str_of ''term''"
  by (simp_all add: str_of_def)

text \<open>
  C7, as stated, does not hold: on the parameters of the module's own example run, which
  name a journal, the term field has a fourth clause, so it is not the conjunction of the
  keyword, date and author clauses.
\<close>

theorem parseData_term_counterexample:
  "parseData (str_of ''crispr'') (str_of ''2010'') (str_of ''2020'') (str_of ''Martin'')
       (str_of ''nature'') [30456, 20851, 24615] (str_of ''term'')
     = Some (str_of ''crispr AND 2010:2020[dp] AND Martin[author] AND nature[journal]'')
   \<and> parseData (str_of ''crispr'') (str_of ''2010'') (str_of ''2020'') (str_of ''Martin'')
       (str_of ''nature'') [30456, 20851, 24615] (str_of ''term'')
     \<noteq> Some (spec_term (str_of ''crispr'') (str_of ''2010'') (str_of ''2020'') (str_of ''Martin''))"
  by (simp add: parseData_def spec_term_def str_of_def startswith_def endswith_def
      sort_by_date_prefix_def reverse_order_suffix_def)

text \<open>
  C7, amended: for all parameters the term field is the keyword (always present, also when
  empty), then the date clause when both years are non-empty, then the author clause when
  the author is non-empty, then the journal clause when the journal is non-empty, joined
  by \<open>" AND "\<close> in this order.
\<close>

theorem parseData_term:
  "parseData keyword start_year end_year author journal sorting (str_of ''term'')
     = Some (join (str_of '' AND '')
         ([keyword]
          @ (if start_year \<noteq> [] \<and> end_year \<noteq> []
             then [start_year @ str_of '':'' @ end_year @ str_of ''[dp]''] else [])
          @ (if author \<noteq> [] then [author @ str_of ''[author]''] else [])
          @ (if journal \<noteq> [] then [journal @ str_of ''[journal]''] else [])))"
  unfolding parseData_def Let_def using str_of_neq by simp

section \<open>Properties of \<open>getTotalPaperNum\<close>\<close>

text \<open>
  C8, as stated, does not hold: a fetched page that shows no match (its \<open>results-amount\<close>
  element has no count) makes the function return the message with the count 0; it does
  not fail.
\<close>

theorem getTotalPaperNum_zero_counterexample:
  "getTotalPaperNum (Responds \<lparr>single_result_redirect = False, results_amount = Some None\<rparr>)
     = Returns (found_msg (str_of ''0''))"
  by (simp add: getTotalPaperNum_def)

text \<open>
  C8, amended: the function raises the timeout \<open>TipException\<close> when the request times out;
  on a single-result redirect page it returns the message with the count 1, whatever the
  \<open>results-amount\<close> element is; on a page whose \<open>results-amount\<close> element has no count it
  returns the message with the count 0, and otherwise the count with its commas removed;
  no fetched page makes it raise a \<open>TipException\<close>.
\<close>

theorem getTotalPaperNum_outcomes:
  "getTotalPaperNum (Fails TimeoutError) = Raises (TipException timeout_msg)
   \<and> getTotalPaperNum (Responds \<lparr>single_result_redirect = True, results_amount = ra\<rparr>)
       = Returns (found_msg (str_of ''1''))
   \<and> getTotalPaperNum (Responds \<lparr>single_result_redirect = False, results_amount = Some None\<rparr>)
       = Returns (found_msg (str_of ''0''))
   \<and> getTotalPaperNum (Responds \<lparr>single_result_redirect = False, results_amount = Some (Some text)\<rparr>)
       = Returns (found_msg (remove_commas text))
   \<and> getTotalPaperNum (Responds bs) \<noteq> Raises (TipException m)"
  by (simp add: getTotalPaperNum_def split: option.splits)

section \<open>The loop of \<open>getPMIDs\<close>\<close>

lemma pmid_loop_continue:
  assumes "data_page s \<le> (num - 1) div 200 + 1" "continues src (data_page s)"
  shows "pmid_loop src num acc s =
         pmid_loop src num (acc @ page_ids src (data_page s))
           (s\<lparr>requested := requested s @ [data_page s], data_page := data_page s + 1\<rparr>)"
  using assms
  by (subst pmid_loop.simps)
     (auto simp: continues_def page_ids_def Let_def split: response.splits option.splits)

lemma pmid_loop_advance:
  assumes "data_page s \<le> p" "p \<le> (num - 1) div 200 + 2"
    "\<forall>q. data_page s \<le> q \<and> q < p \<longrightarrow> continues src q"
  shows "pmid_loop src num acc s =
         pmid_loop src num (acc @ concat (map (page_ids src) [data_page s..p - 1]))
           (s\<lparr>requested := requested s @ [data_page s..p - 1], data_page := p\<rparr>)"
  using assms
proof (induction "nat (p - data_page s)" arbitrary: s acc)
  case 0
  then have "data_page s = p" by simp
  then have e: "s\<lparr>data_page := p\<rparr> = s" by (cases s) simp
  show ?case using \<open>data_page s = p\<close> by (simp add: e)
next
  case (Suc n)
  then have lt: "data_page s < p" by linarith
  let ?s' = "s\<lparr>requested := requested s @ [data_page s], data_page := data_page s + 1\<rparr>"
  have c: "continues src (data_page s)" using Suc.prems lt by simp
  have b: "data_page s \<le> (num - 1) div 200 + 1" using Suc.prems lt by linarith
  have step: "pmid_loop src num acc s = pmid_loop src num (acc @ page_ids src (data_page s)) ?s'"
    by (rule pmid_loop_continue[OF b c])
  have n: "n = nat (p - data_page ?s')" using Suc.hyps(2) by simp
  have ih: "pmid_loop src num (acc @ page_ids src (data_page s)) ?s' =
        pmid_loop src num ((acc @ page_ids src (data_page s)) @ concat (map (page_ids src) [data_page ?s'..p - 1]))
           (?s'\<lparr>requested := requested ?s' @ [data_page ?s'..p - 1], data_page := p\<rparr>)"
    using Suc.prems lt by (intro Suc.hyps(1)[OF n]) auto
  have up: "[data_page s..p - 1] = data_page s # [data_page s + 1..p - 1]"
    using lt by (simp add: upto_rec1)
  show ?case unfolding step ih up by simp
qed

lemma pmid_loop_exit:
  "(num - 1) div 200 + 1 < data_page s \<Longrightarrow> pmid_loop src num acc s = ((acc, s), Returns ())"
  by (subst pmid_loop.simps) simp

lemma pmid_loop_single:
  assumes "data_page s \<le> (num - 1) div 200 + 1" "src (data_page s) = Responds (Some t)"
    "length (split t) = 1"
  shows "pmid_loop src num acc s =
         ((acc @ page_ids src (data_page s), s\<lparr>requested := requested s @ [data_page s]\<rparr>),
          Returns ())"
  using assms by (subst pmid_loop.simps) (simp add: page_ids_def)

lemma pmid_loop_fails:
  assumes "data_page s \<le> (num - 1) div 200 + 1" "src (data_page s) = Fails e"
  shows "pmid_loop src num acc s =
         ((acc, s\<lparr>requested := requested s @ [data_page s]\<rparr>), Raises e)"
  using assms by (subst pmid_loop.simps) simp

lemma pmid_loop_not_blocks:
  "items (result_queue s) = [] \<Longrightarrow> snd (pmid_loop src num acc s) \<noteq> Blocks"
proof (induction src num acc s rule: pmid_loop.induct)
  case (1 src num pmid_list s)
  show ?case
  proof (cases "data_page s \<le> (num - 1) div 200 + 1")
    case False
    then show ?thesis by (subst pmid_loop.simps) simp
  next
    case True
    show ?thesis
    proof (cases "src (data_page s)")
      case (Fails e)
      then show ?thesis using True by (subst pmid_loop.simps) simp
    next
      case (Responds chunk)
      show ?thesis
      proof (cases chunk)
        case None
        then show ?thesis using True Responds 1(2)
          by (subst pmid_loop.simps) (simp add: put_def)
      next
        case (Some t)
        show ?thesis
        proof (cases "length (split t) = 1")
          case True
          then show ?thesis using \<open>data_page s \<le> (num - 1) div 200 + 1\<close> Responds Some
            by (subst pmid_loop.simps) simp
        next
          case False
          have "snd (pmid_loop src num (pmid_list @ split t)
                  (s\<lparr>requested := requested s @ [data_page s], data_page := data_page s + 1\<rparr>)) \<noteq> Blocks"
            using 1(1)[OF True refl Responds Some refl refl False] 1(2) by simp
          then show ?thesis using \<open>data_page s \<le> (num - 1) div 200 + 1\<close> Responds Some False
            by (subst pmid_loop.simps) simp
        qed
      qed
    qed
  qed
qed

lemma upto_snoc: "i \<le> j \<Longrightarrow> [i..j - 1] @ [j] = [i..j]"
  using upto_rec2[of i j] by simp

lemma run_to_single:
  assumes "1 \<le> p" "p \<le> (num - 1) div 200 + 1" "\<forall>q\<in>{1..<p}. continues src q"
    "src p = Responds (Some t)" "length (split t) = 1"
  shows "pmid_loop src num [] (s\<lparr>data_page := 1\<rparr>) =
         ((concat (map (page_ids src) [1..p]), s\<lparr>data_page := p, requested := requested s @ [1..p]\<rparr>),
          Returns ())"
proof -
  let ?s1 = "s\<lparr>data_page := 1\<rparr>"
  have adv: "pmid_loop src num [] ?s1 =
      pmid_loop src num ([] @ concat (map (page_ids src) [data_page ?s1..p - 1]))
        (?s1\<lparr>requested := requested ?s1 @ [data_page ?s1..p - 1], data_page := p\<rparr>)"
    using assms by (intro pmid_loop_advance) auto
  let ?s2 = "?s1\<lparr>requested := requested ?s1 @ [data_page ?s1..p - 1], data_page := p\<rparr>"
  have fin: "pmid_loop src num (concat (map (page_ids src) [1..p - 1])) ?s2 =
      ((concat (map (page_ids src) [1..p - 1]) @ page_ids src (data_page ?s2),
        ?s2\<lparr>requested := requested ?s2 @ [data_page ?s2]\<rparr>), Returns ())"
    using assms by (intro pmid_loop_single[where t = t]) auto
  have c: "concat (map (page_ids src) [1..p - 1]) @ page_ids src p = concat (map (page_ids src) [1..p])"
  proof -
    have "concat (map (page_ids src) ([1..p - 1] @ [p])) = concat (map (page_ids src) [1..p - 1]) @ page_ids src p"
      by simp
    then show ?thesis using upto_snoc[OF assms(1)] by simp
  qed
  show ?thesis
    using adv fin c upto_snoc[OF assms(1)] by simp
qed

lemma run_to_fail:
  assumes "1 \<le> p" "p \<le> (num - 1) div 200 + 1" "\<forall>q\<in>{1..<p}. continues src q"
    "src p = Fails e"
  shows "pmid_loop src num [] (s\<lparr>data_page := 1\<rparr>) =
         ((concat (map (page_ids src) [1..p - 1]),
           s\<lparr>data_page := p, requested := requested s @ [1..p]\<rparr>), Raises e)"
proof -
  let ?s1 = "s\<lparr>data_page := 1\<rparr>"
  have adv: "pmid_loop src num [] ?s1 =
      pmid_loop src num ([] @ concat (map (page_ids src) [data_page ?s1..p - 1]))
        (?s1\<lparr>requested := requested ?s1 @ [data_page ?s1..p - 1], data_page := p\<rparr>)"
    using assms by (intro pmid_loop_advance) auto
  let ?s2 = "?s1\<lparr>requested := requested ?s1 @ [data_page ?s1..p - 1], data_page := p\<rparr>"
  have fin: "pmid_loop src num (concat (map (page_ids src) [1..p - 1])) ?s2 =
      ((concat (map (page_ids src) [1..p - 1]),
        ?s2\<lparr>requested := requested ?s2 @ [data_page ?s2]\<rparr>), Raises e)"
    using assms by (intro pmid_loop_fails) auto
  show ?thesis
    using adv fin upto_snoc[OF assms(1)] by simp
qed

lemma run_to_end:
  assumes "\<forall>q\<in>{1..(num - 1) div 200 + 1}. continues src q" "1 \<le> num"
  shows "pmid_loop src num [] (s\<lparr>data_page := 1\<rparr>) =
         ((concat (map (page_ids src) [1..(num - 1) div 200 + 1]),
           s\<lparr>data_page := (num - 1) div 200 + 2,
             requested := requested s @ [1..(num - 1) div 200 + 1]\<rparr>), Returns ())"
proof -
  define k where "k = (num - 1) div 200 + 1"
  let ?s1 = "s\<lparr>data_page := 1\<rparr>"
  have k: "1 \<le> k" using assms(2) by (simp add: k_def pos_imp_zdiv_nonneg_iff)
  have b: "k + 1 \<le> (num - 1) div 200 + 2" by (simp add: k_def)
  have c: "\<forall>q. data_page ?s1 \<le> q \<and> q < k + 1 \<longrightarrow> continues src q"
    using assms(1) by (simp add: k_def)
  have adv: "pmid_loop src num [] ?s1 =
      pmid_loop src num ([] @ concat (map (page_ids src) [data_page ?s1..(k + 1) - 1]))
        (?s1\<lparr>requested := requested ?s1 @ [data_page ?s1..(k + 1) - 1], data_page := k + 1\<rparr>)"
    using k by (intro pmid_loop_advance b c) simp
  have fin: "pmid_loop src num (concat (map (page_ids src) [1..k]))
               (s\<lparr>requested := requested s @ [1..k], data_page := k + 1\<rparr>) =
      ((concat (map (page_ids src) [1..k]),
        s\<lparr>requested := requested s @ [1..k], data_page := k + 1\<rparr>), Returns ())"
    by (intro pmid_loop_exit) (simp add: k_def)
  have r: "s\<lparr>requested := requested s @ [1..k], data_page := k + 1\<rparr>
         = s\<lparr>data_page := k + 1, requested := requested s @ [1..k]\<rparr>"
    by (cases s) simp
  have "pmid_loop src num [] ?s1 =
      ((concat (map (page_ids src) [1..k]),
        s\<lparr>data_page := k + 1, requested := requested s @ [1..k]\<rparr>), Returns ())"
    using adv fin r by simp
  then show ?thesis by (simp add: k_def)
qed

lemma slice_to_take: "0 \<le> n \<Longrightarrow> slice_to xs n = take (nat n) xs"
  by (simp add: slice_to_def)

lemma slice_to_prefix: "prefix (slice_to xs n) xs"
  by (simp add: slice_to_def take_is_prefix)

lemma full_page_continues: "full_page src p \<Longrightarrow> continues src p"
  by (auto simp: full_page_def continues_def split: response.splits option.splits)

section \<open>Properties of \<open>getPMIDs\<close>\<close>

text \<open>
  C2: when the first listing page has no chunk, the loop raises the \<open>TipException\<close> of
  the not-found case, but the \<open>return\<close> of the \<open>finally\<close> clause discards it: \<open>getPMIDs\<close>
  returns the empty list, and \<open>getAllPapers\<close> goes on with no task and returns.
\<close>

theorem getPMIDs_not_found_returns:
  "getPMIDs (\<lambda>p. Responds None) 1
       \<lparr>data_page = 0, result_queue = \<lparr>maxsize = 1, items = []\<rparr>, requested = []\<rparr>
     = (\<lparr>data_page = 1, result_queue = \<lparr>maxsize = 1, items = [not_found_entry]\<rparr>,
         requested = [1]\<rparr>, Returns [])
   \<and> getAllPapers (\<lambda>p. Responds None) (\<lambda>i pmid. Fails TimeoutError) rev
       \<lparr>maxsize = 1, items = []\<rparr> 1
       \<lparr>data_page = 0, result_queue = \<lparr>maxsize = 0, items = []\<rparr>, requested = []\<rparr>
     = (\<lparr>data_page = 1, result_queue = \<lparr>maxsize = 1, items = [not_found_entry]\<rparr>,
         requested = [1]\<rparr>, Returns ())"
  by (simp add: getAllPapers_def pmid_loop.simps getPMIDs_def put_def finally_return_def
      slice_to_def)

text \<open>
  C3, as stated, does not hold: with 201 identifiers requested, a first page of two
  identifiers, fewer than 200, is followed by the request of page 2.
\<close>

theorem getPMIDs_short_page_counterexample:
  "length (split (str_of ''11 22'')) < 200
   \<and> requested (fst (getPMIDs
        (\<lambda>p. if p = 1 then Responds (Some (str_of ''11 22'')) else Responds (Some (str_of ''33'')))
        201 \<lparr>data_page = 1, result_queue = \<lparr>maxsize = 201, items = []\<rparr>, requested = []\<rparr>))
     = [1, 2]"
  by (simp add: getPMIDs_def pmid_loop.simps finally_return_def split_def str_of_def isspace_def)

text \<open>
  C3, amended: whenever a listing page yields exactly one identifier, the fetcher stops
  paginating and issues no further page request: if the pages before page \<open>p\<close> let the
  loop go on and page \<open>p\<close>, within the bound, has exactly one identifier, then the pages
  requested are 1 to \<open>p\<close> and the result is the identifiers of these pages, cut to the
  requested number.
\<close>

theorem getPMIDs_stops_on_single:
  assumes "1 \<le> p" "p \<le> (num - 1) div 200 + 1" "\<forall>q\<in>{1..<p}. continues src q"
    "src p = Responds (Some t)" "length (split t) = 1"
  shows "getPMIDs src num s =
         (s\<lparr>data_page := p, requested := requested s @ [1..p]\<rparr>,
          Returns (slice_to (concat (map (page_ids src) [1..p])) num))"
  using run_to_single[OF assms, of s]
  by (simp add: getPMIDs_def finally_return_def)

theorem getPMIDs_stops_on_single_witness:
  "getPMIDs (\<lambda>p. if p = 1 then Responds (Some (str_of ''11 22'')) else Responds (Some (str_of ''33'')))
        601 \<lparr>data_page = 1, result_queue = \<lparr>maxsize = 601, items = []\<rparr>, requested = []\<rparr>
     = (\<lparr>data_page = 2, result_queue = \<lparr>maxsize = 601, items = []\<rparr>, requested = [1, 2]\<rparr>,
        Returns [str_of ''11'', str_of ''22'', str_of ''33''])"
proof -
  let ?src = "\<lambda>p::int. if p = 1 then Responds (Some (str_of ''11 22'')) else Responds (Some (str_of ''33''))"
  have h1: "(1::int) \<le> 2" by simp
  have h2: "(2::int) \<le> (601 - 1) div 200 + 1" by simp
  have h3: "\<forall>q\<in>{1..<2::int}. continues ?src q"
    by (simp add: continues_def split_def str_of_def isspace_def)
  have h4: "?src 2 = Responds (Some (str_of ''33''))" by simp
  have h5: "length (split (str_of ''33'')) = 1"
    by (simp add: split_def str_of_def isspace_def)
  have u: "[1..2::int] = [1, 2]" by (simp add: upto_rec1)
  show ?thesis
    using getPMIDs_stops_on_single[of 2 601 ?src "str_of ''33''", OF h1 h2 h3 h4 h5]
    by (simp add: u page_ids_def slice_to_def split_def str_of_def isspace_def)
qed

lemma pages_upto_length: "1 \<le> k \<Longrightarrow> int (length [1..k]) = k"
  by simp

lemma bound_is_ceiling:
  fixes num :: int
  shows "(num - 1) div 200 + 1 = \<lceil>real_of_int num / 200\<rceil>"
proof -
  define q where "q = (num - 1) div 200"
  define r where "r = (num - 1) mod 200"
  have e: "num - 1 = 200 * q + r" by (simp add: q_def r_def)
  have m: "0 \<le> r" "r < 200" by (simp_all add: r_def)
  have a: "200 * q < num" using e m by linarith
  have b: "num \<le> 200 * q + 200" using e m by linarith
  have a': "real_of_int (q + 1) - 1 < real_of_int num / 200"
    using a by (simp add: field_simps)
  have b': "real_of_int num / 200 \<le> real_of_int (q + 1)"
    using b by (simp add: field_simps)
  have "\<lceil>real_of_int num / 200\<rceil> = q + 1"
    by (rule ceiling_unique[OF a' b'])
  then show ?thesis by (simp add: q_def)
qed

lemma run_all_pages:
  assumes "1 \<le> num" "\<forall>p\<in>{1..<(num - 1) div 200 + 1}. full_page src p"
    "has_chunk src ((num - 1) div 200 + 1)"
  shows "\<exists>s'. pmid_loop src num [] (s\<lparr>data_page := 1\<rparr>) =
           ((concat (map (page_ids src) [1..(num - 1) div 200 + 1]), s'), Returns ())
         \<and> requested s' = requested s @ [1..(num - 1) div 200 + 1]"
proof -
  define k where "k = (num - 1) div 200 + 1"
  have k: "1 \<le> k" using assms(1) by (simp add: k_def pos_imp_zdiv_nonneg_iff)
  obtain t where t: "src k = Responds (Some t)"
    using assms(3) by (auto simp: has_chunk_def k_def split: response.splits option.splits)
  have before: "\<forall>q\<in>{1..<k}. continues src q"
    using assms(2) full_page_continues by (simp add: k_def)
  show ?thesis
  proof (cases "length (split t) = 1")
    case True
    have "pmid_loop src num [] (s\<lparr>data_page := 1\<rparr>) =
         ((concat (map (page_ids src) [1..k]), s\<lparr>data_page := k, requested := requested s @ [1..k]\<rparr>),
          Returns ())"
      using k before t True by (intro run_to_single[where t = t]) (simp_all add: k_def)
    then show ?thesis by (simp add: k_def)
  next
    case False
    then have "continues src k" using t by (simp add: continues_def)
    then have "\<forall>q\<in>{1..k}. continues src q"
    proof -
      have "continues src q" if "q \<in> {1..k}" for q
      proof (cases "q = k")
        case True
        then show ?thesis using \<open>continues src k\<close> by simp
      next
        case False
        then have "q \<in> {1..<k}" using that by simp
        then show ?thesis using before by blast
      qed
      then show ?thesis by blast
    qed
    then have "pmid_loop src num [] (s\<lparr>data_page := 1\<rparr>) =
         ((concat (map (page_ids src) [1..(num - 1) div 200 + 1]),
           s\<lparr>data_page := (num - 1) div 200 + 2,
             requested := requested s @ [1..(num - 1) div 200 + 1]\<rparr>), Returns ())"
      using assms(1) by (intro run_to_end) (simp_all add: k_def)
    then show ?thesis by simp
  qed
qed

text \<open>
  C5: for \<open>num \<ge> 1\<close> and a listing source whose pages before the last one needed are full
  and whose pages hold at least \<open>num\<close> identifiers, \<open>getPMIDs\<close> returns exactly the first
  \<open>num\<close> identifiers in the order of the pages, and requests the pages 1 to
  \<open>(num - 1) div 200 + 1\<close>, that is \<open>\<lceil>num / 200\<rceil>\<close> pages.
\<close>

theorem getPMIDs_exact:
  assumes "1 \<le> num" "\<forall>p\<in>{1..<(num - 1) div 200 + 1}. full_page src p"
    "has_chunk src ((num - 1) div 200 + 1)"
    "num \<le> int (length (concat (map (page_ids src) [1..(num - 1) div 200 + 1])))"
  shows "snd (getPMIDs src num s)
           = Returns (take (nat num) (concat (map (page_ids src) [1..(num - 1) div 200 + 1])))
         \<and> int (length (take (nat num) (concat (map (page_ids src) [1..(num - 1) div 200 + 1])))) = num
         \<and> requested (fst (getPMIDs src num s)) = requested s @ [1..(num - 1) div 200 + 1]
         \<and> int (length [1..(num - 1) div 200 + 1]) = \<lceil>real_of_int num / 200\<rceil>"
proof -
  obtain s' where run: "pmid_loop src num [] (s\<lparr>data_page := 1\<rparr>) =
           ((concat (map (page_ids src) [1..(num - 1) div 200 + 1]), s'), Returns ())"
    and req: "requested s' = requested s @ [1..(num - 1) div 200 + 1]"
    using run_all_pages[OF assms(1-3), of s] by blast
  have g: "getPMIDs src num s =
      (s', Returns (take (nat num) (concat (map (page_ids src) [1..(num - 1) div 200 + 1]))))"
    using run assms(1) by (simp add: getPMIDs_def finally_return_def slice_to_take)
  have k: "1 \<le> (num - 1) div 200 + 1" using assms(1) by (simp add: pos_imp_zdiv_nonneg_iff)
  have c: "int (length [1..(num - 1) div 200 + 1]) = \<lceil>real_of_int num / 200\<rceil>"
    using pages_upto_length[OF k] bound_is_ceiling[of num] by simp
  have l: "int (length (take (nat num) (concat (map (page_ids src) [1..(num - 1) div 200 + 1])))) = num"
    using assms(1,4) by simp
  show ?thesis using g req c l by simp
qed

lemma split_sevens:
  "split (concat (replicate n (str_of ''7 ''))) = replicate n (str_of ''7'')"
  unfolding split_def
  by (induction n) (simp_all add: str_of_def isspace_def)

theorem getPMIDs_exact_witness:
  "snd (getPMIDs (\<lambda>p. if p = 1 then Responds (Some (concat (replicate 200 (str_of ''7 ''))))
                       else Responds (Some (str_of ''8 9'')))
         201 \<lparr>data_page = 1, result_queue = \<lparr>maxsize = 201, items = []\<rparr>, requested = []\<rparr>)
     = Returns (replicate 200 (str_of ''7'') @ [str_of ''8''])
   \<and> requested (fst (getPMIDs (\<lambda>p. if p = 1 then Responds (Some (concat (replicate 200 (str_of ''7 ''))))
                       else Responds (Some (str_of ''8 9'')))
         201 \<lparr>data_page = 1, result_queue = \<lparr>maxsize = 201, items = []\<rparr>, requested = []\<rparr>))
     = [1, 2]"
proof -
  let ?src = "\<lambda>p::int. if p = 1 then Responds (Some (concat (replicate 200 (str_of ''7 ''))))
                       else Responds (Some (str_of ''8 9''))"
  let ?s = "\<lparr>data_page = 1, result_queue = \<lparr>maxsize = 201, items = []\<rparr>, requested = []\<rparr>"
  have p1: "page_ids ?src 1 = replicate 200 (str_of ''7'')"
    by (simp add: page_ids_def split_sevens)
  have p2: "page_ids ?src 2 = [str_of ''8'', str_of ''9'']"
    by (simp add: page_ids_def split_def str_of_def isspace_def)
  have u: "[1..2::int] = [1, 2]" by (simp add: upto_rec1)
  have k: "((201::int) - 1) div 200 + 1 = 2" by simp
  have h1: "(1::int) \<le> 201" by simp
  have h2: "\<forall>p\<in>{1..<(201 - 1) div 200 + 1}. full_page ?src p"
    by (simp add: full_page_def split_sevens)
  have h3: "has_chunk ?src ((201 - 1) div 200 + 1)"
    by (simp add: has_chunk_def)
  have h4: "201 \<le> int (length (concat (map (page_ids ?src) [1..(201 - 1) div 200 + 1])))"
    unfolding k u by (simp add: p1 p2)
  show ?thesis
    using getPMIDs_exact[of 201 ?src ?s, OF h1 h2 h3 h4]
    unfolding k u by (simp add: p1 p2)
qed

lemma pmid_loop_nonpositive:
  "num \<le> 0 \<Longrightarrow> pmid_loop src num [] (s\<lparr>data_page := 1\<rparr>) = (([], s\<lparr>data_page := 1\<rparr>), Returns ())"
proof -
  assume "num \<le> 0"
  then have "(num - 1) div 200 < 0" by (simp add: div_neg_pos_less0)
  then show ?thesis by (intro pmid_loop_exit) simp
qed

lemma slice_to_length: "(n < 0 \<longrightarrow> xs = []) \<Longrightarrow> int (length (slice_to xs n)) \<le> max 0 n"
  by (auto simp: slice_to_def)

lemma pmid_loop_blocks_queue:
  "snd (pmid_loop src num acc s) = Blocks \<Longrightarrow> items (result_queue s) \<noteq> []"
  using pmid_loop_not_blocks[of s src num acc] by blast

lemma slice_to_accumulated:
  assumes "pmid_loop src num [] (s\<lparr>data_page := 1\<rparr>) = ((pmid_list, s'), r)"
  shows "slice_to pmid_list num = take (nat num) pmid_list"
proof (cases "0 \<le> num")
  case True
  then show ?thesis by (rule slice_to_take)
next
  case False
  then have "pmid_list = []" using pmid_loop_nonpositive[of num src s] assms by simp
  then show ?thesis by (simp add: slice_to_def)
qed

text \<open>
  C6: in every run the loop ends with an accumulated list \<open>pmid_list\<close>, and \<open>getPMIDs\<close>
  returns exactly its first \<open>num\<close> elements, \<open>take (nat num) pmid_list\<close>: a prefix of the
  accumulated list with at most \<open>num\<close> elements. It never raises. The only run without a
  result is the one that blocks on putting the not-found entry, and this needs a queue
  that is not empty at the start. In particular, when the request of page \<open>p\<close> times out
  after the pages before it let the loop go on, \<open>getPMIDs\<close> returns the first \<open>num\<close> of
  the identifiers of the pages 1 to \<open>p - 1\<close>, and the last page requested is \<open>p\<close>.
\<close>

theorem getPMIDs_returns_prefix:
  "\<exists>pmid_list s' r.
       pmid_loop src num [] (s\<lparr>data_page := 1\<rparr>) = ((pmid_list, s'), r)
     \<and> (getPMIDs src num s = (s', Returns (take (nat num) pmid_list))
          \<or> getPMIDs src num s = (s', Blocks) \<and> items (result_queue s) \<noteq> [])
     \<and> prefix (take (nat num) pmid_list) pmid_list
     \<and> int (length (take (nat num) pmid_list)) \<le> max 0 num
     \<and> (1 \<le> p \<and> p \<le> (num - 1) div 200 + 1 \<and> (\<forall>q\<in>{1..<p}. continues src q)
          \<and> src p = Fails TimeoutError
        \<longrightarrow> getPMIDs src num s
              = (s\<lparr>data_page := p, requested := requested s @ [1..p]\<rparr>,
                 Returns (take (nat num) (concat (map (page_ids src) [1..p - 1])))))"
proof -
  obtain pmid_list s' r where run: "pmid_loop src num [] (s\<lparr>data_page := 1\<rparr>) = ((pmid_list, s'), r)"
    by (metis prod.exhaust)
  have sl: "slice_to pmid_list num = take (nat num) pmid_list"
    using run by (rule slice_to_accumulated)
  have g: "getPMIDs src num s = (s', Returns (take (nat num) pmid_list))
          \<or> getPMIDs src num s = (s', Blocks) \<and> items (result_queue s) \<noteq> []"
  proof (cases r)
    case (Returns u)
    then show ?thesis using run sl by (simp add: getPMIDs_def finally_return_def)
  next
    case (Raises e)
    then show ?thesis using run sl by (simp add: getPMIDs_def finally_return_def Let_def)
  next
    case Blocks
    have "items (result_queue (s\<lparr>data_page := 1\<rparr>)) \<noteq> []"
      using pmid_loop_blocks_queue[of src num "[]" "s\<lparr>data_page := 1\<rparr>"] run Blocks by simp
    then show ?thesis using run Blocks by (simp add: getPMIDs_def)
  qed
  have t: "getPMIDs src num s
              = (s\<lparr>data_page := p, requested := requested s @ [1..p]\<rparr>,
                 Returns (take (nat num) (concat (map (page_ids src) [1..p - 1]))))"
    if "1 \<le> p" "p \<le> (num - 1) div 200 + 1" "\<forall>q\<in>{1..<p}. continues src q" "src p = Fails TimeoutError"
  proof -
    have f: "pmid_loop src num [] (s\<lparr>data_page := 1\<rparr>) =
         ((concat (map (page_ids src) [1..p - 1]),
           s\<lparr>data_page := p, requested := requested s @ [1..p]\<rparr>), Raises TimeoutError)"
      by (rule run_to_fail[OF that])
    have "slice_to (concat (map (page_ids src) [1..p - 1])) num
            = take (nat num) (concat (map (page_ids src) [1..p - 1]))"
      using f by (rule slice_to_accumulated)
    then show ?thesis using f by (simp add: getPMIDs_def finally_return_def)
  qed
  have b: "int (length (take (nat num) pmid_list)) \<le> max 0 num" by simp
  show ?thesis
    using run g t b take_is_prefix[of "nat num" pmid_list] by blast
qed

theorem getPMIDs_returns_prefix_witness:
  "getPMIDs (\<lambda>p. if p = 1 then Responds (Some (concat (replicate 300 (str_of ''7 ''))))
                  else Fails TimeoutError)
         201 \<lparr>data_page = 0, result_queue = \<lparr>maxsize = 0, items = [not_found_entry]\<rparr>,
               requested = []\<rparr>
     = (\<lparr>data_page = 2, result_queue = \<lparr>maxsize = 0, items = [not_found_entry]\<rparr>,
         requested = [1, 2]\<rparr>,
        Returns (replicate 201 (str_of ''7'')))"
proof -
  let ?src = "\<lambda>p::int. if p = 1 then Responds (Some (concat (replicate 300 (str_of ''7 ''))))
                       else Fails TimeoutError"
  let ?s = "\<lparr>data_page = 0, result_queue = \<lparr>maxsize = 0, items = [not_found_entry]\<rparr>,
             requested = []\<rparr>"
  have c: "1 \<le> (2::int) \<and> 2 \<le> ((201::int) - 1) div 200 + 1 \<and> (\<forall>q\<in>{1..<2}. continues ?src q)
           \<and> ?src 2 = Fails TimeoutError"
    by (simp add: continues_def split_sevens)
  have p1: "page_ids ?src 1 = replicate 300 (str_of ''7'')"
    by (simp add: page_ids_def split_sevens)
  have u: "[1..2::int] = [1, 2]" by (simp add: upto_rec1)
  have "getPMIDs ?src 201 ?s
              = (?s\<lparr>data_page := 2, requested := requested ?s @ [1..2]\<rparr>,
                 Returns (take (nat 201) (concat (map (page_ids ?src) [1..2 - 1]))))"
    using getPMIDs_returns_prefix[of ?src 201 ?s 2] c by blast
  then show ?thesis by (simp add: p1 u)
qed

section \<open>Properties of the detail stage\<close>

lemma put_room:
  "maxsize q \<le> 0 \<or> int (length (items q)) < maxsize q
   \<Longrightarrow> put q x = Some (q\<lparr>items := insort_key entry_key x (items q)\<rparr>)"
  by (auto simp: put_def)

text \<open>Entries of equal rank are ordered by their records: the entry for identifier
  \<open>"2"\<close> goes behind the queued entry of the same rank for identifier \<open>"1"\<close>.\<close>

lemma put_equal_rank:
  "put \<lparr>maxsize = 0, items = [(0, error_record (str_of ''1''))]\<rparr> (0, error_record (str_of ''2''))
     = Some \<lparr>maxsize = 0,
             items = [(0, error_record (str_of ''1'')), (0, error_record (str_of ''2''))]\<rparr>"
  by (simp add: put_def entry_key_def error_record_def Let_def str_of_def base_url_def
      less_eq_prod_def less_prod_def list_le_def list_less_def)

lemma getPagesInfo_completes:
  assumes "completes resp" "maxsize q \<le> 0 \<or> int (length (items q)) < maxsize q"
  shows "\<exists>r. emits i pmid resp = [(int i, r)]
           \<and> getPagesInfo (int i) pmid resp q
               = (q\<lparr>items := insort_key entry_key (int i, r) (items q)\<rparr>, Returns ())"
proof -
  note room = put_room[OF assms(2)]
  show ?thesis
  proof (cases resp)
    case (Fails e)
    have "emits i pmid resp = [(int i, error_record pmid)]"
      using Fails by (simp add: emits_def getPagesInfo_def put_result_def put_def)
    moreover have "getPagesInfo (int i) pmid resp q
        = (q\<lparr>items := insort_key entry_key (int i, error_record pmid) (items q)\<rparr>, Returns ())"
      using Fails by (simp add: getPagesInfo_def put_result_def room)
    ultimately show ?thesis by blast
  next
    case (Responds page)
    then obtain content where c: "page = Some content"
      using assms(1) by (cases page) (simp_all add: completes_def)
    show ?thesis
    proof (cases "full_text_links content")
      case None
      have "emits i pmid resp = [(int i, parsed_record pmid content)]"
        using Responds c None by (simp add: emits_def getPagesInfo_def put_result_def put_def)
      moreover have "getPagesInfo (int i) pmid resp q
          = (q\<lparr>items := insort_key entry_key (int i, parsed_record pmid content) (items q)\<rparr>, Returns ())"
        using Responds c None by (simp add: getPagesInfo_def put_result_def room)
      ultimately show ?thesis by blast
    next
      case (Some a)
      then obtain h where h: "a = Href h"
        using assms(1) Responds c by (cases a) (simp_all add: completes_def)
      have "emits i pmid resp = [(int i, (parsed_record pmid content)\<lparr>web := h\<rparr>)]"
        using Responds c Some h by (simp add: emits_def getPagesInfo_def put_result_def put_def)
      moreover have "getPagesInfo (int i) pmid resp q
          = (q\<lparr>items := insort_key entry_key (int i, (parsed_record pmid content)\<lparr>web := h\<rparr>) (items q)\<rparr>,
             Returns ())"
        using Responds c Some h by (simp add: getPagesInfo_def put_result_def room)
      ultimately show ?thesis by blast
    qed
  qed
qed

lemma entry_key_fst: "entry_key x \<le> entry_key y \<Longrightarrow> fst x \<le> fst y"
  by (auto simp: entry_key_def less_eq_prod_def)

lemma sorted_key_fst: "sorted (map entry_key xs) \<Longrightarrow> sorted (map fst xs)"
  by (induction xs) (auto simp: entry_key_fst)

lemma gather_completes:
  assumes "\<forall>(i, pmid)\<in>set order. completes (det i pmid)"
    "maxsize q \<le> 0 \<or> int (length (items q) + length order) \<le> maxsize q"
    "sorted (map entry_key (items q))"
  shows "\<exists>q'. gather det order q = (q', Returns ())
           \<and> maxsize q' = maxsize q
           \<and> mset (items q') = mset (items q) + mset (batch_entries det order)
           \<and> sorted (map entry_key (items q'))"
  using assms
proof (induction order arbitrary: q)
  case Nil
  then show ?case by (simp add: batch_entries_def)
next
  case (Cons task rest)
  obtain i pmid where task: "task = (i, pmid)" by (cases task)
  have c: "completes (det i pmid)" using Cons.prems(1) task by simp
  have room: "maxsize q \<le> 0 \<or> int (length (items q)) < maxsize q"
    using Cons.prems(2) by auto
  obtain r where e: "emits i pmid (det i pmid) = [(int i, r)]"
    and g: "getPagesInfo (int i) pmid (det i pmid) q
               = (q\<lparr>items := insort_key entry_key (int i, r) (items q)\<rparr>, Returns ())"
    using getPagesInfo_completes[OF c room] by blast
  let ?q1 = "q\<lparr>items := insort_key entry_key (int i, r) (items q)\<rparr>"
  have p1: "\<forall>(i, pmid)\<in>set rest. completes (det i pmid)" using Cons.prems(1) by simp
  have p2: "maxsize ?q1 \<le> 0 \<or> int (length (items ?q1) + length rest) \<le> maxsize ?q1"
    using Cons.prems(2) by auto
  have p3: "sorted (map entry_key (items ?q1))"
    using Cons.prems(3) by (simp add: sorted_insort_key)
  obtain q' where ih: "gather det rest ?q1 = (q', Returns ())" "maxsize q' = maxsize ?q1"
      "mset (items q') = mset (items ?q1) + mset (batch_entries det rest)"
      "sorted (map entry_key (items q'))"
    using Cons.IH[OF p1 p2 p3] by blast
  have "gather det (task # rest) q = (q', Returns ())"
    using task g ih(1) by simp
  moreover have "mset (items q') = mset (items q) + mset (batch_entries det (task # rest))"
    using ih(3) e task by (simp add: batch_entries_def)
  ultimately show ?case using ih(2,4) by auto
qed

lemma batch_entries_perm:
  assumes "mset order = mset tasks"
  shows "mset (batch_entries det order) = mset (batch_entries det tasks)"
proof -
  let ?f = "\<lambda>(index, pmid). mset (emits index pmid (det index pmid))"
  have "mset (batch_entries det xs) = sum_mset (image_mset ?f (mset xs))" for xs
    by (induction xs) (auto simp: batch_entries_def)
  then show ?thesis using assms by simp
qed

lemma batch_entries_keys:
  assumes "\<forall>(i, pmid)\<in>set (enumerate n pmids). completes (det i pmid)"
  shows "map fst (batch_entries det (enumerate n pmids)) = map int [n..<n + length pmids]"
  using assms
proof (induction pmids arbitrary: n)
  case Nil
  then show ?case by (simp add: batch_entries_def)
next
  case (Cons pmid rest)
  have c: "completes (det n pmid)" using Cons.prems by simp
  obtain r where e: "emits n pmid (det n pmid) = [(int n, r)]"
    using getPagesInfo_completes[OF c, of "\<lparr>maxsize = 0, items = []\<rparr>" n pmid] by auto
  have "\<forall>(i, pmid)\<in>set (enumerate (Suc n) rest). completes (det i pmid)"
    using Cons.prems by simp
  then have ih: "map fst (batch_entries det (enumerate (Suc n) rest))
                 = map int [Suc n..<Suc n + length rest]"
    by (rule Cons.IH)
  have "batch_entries det (enumerate n (pmid # rest))
        = (int n, r) # batch_entries det (enumerate (Suc n) rest)"
    using e by (simp add: batch_entries_def)
  then show ?case using ih by (simp add: upt_rec)
qed

lemma sorted_keys_unique:
  assumes "sorted (map fst xs)" "mset xs = mset ys" "sorted (map fst ys)" "distinct (map fst ys)"
  shows "xs = (ys :: entry list)"
proof -
  have s: "set xs = set ys" using assms(2) by (rule mset_eq_setD)
  have "mset (map fst xs) = mset (map fst ys)" using assms(2) by simp
  then have d: "distinct (map fst xs)"
    using assms(4) mset_eq_imp_distinct_iff by blast
  have "inj_on fst (set ys)" using assms(4) by (simp add: distinct_map)
  then have i: "inj_on fst (set xs \<union> set ys)" using s by simp
  show ?thesis
    by (rule map_sorted_distinct_set_unique[OF i assms(1) d assms(3,4) s])
qed

lemma get_n_all: "get_n (length (items q)) q = Some (items q)"
proof (induction "items q" arbitrary: q)
  case Nil
  then show ?case by simp
next
  case (Cons x xs)
  then have i: "items q = x # xs" by simp
  have "xs = items (q\<lparr>items := xs\<rparr>)" by simp
  then have "get_n (length (items (q\<lparr>items := xs\<rparr>))) (q\<lparr>items := xs\<rparr>) = Some (items (q\<lparr>items := xs\<rparr>))"
    by (rule Cons.hyps(1))
  then show ?case using i by (simp add: get_def)
qed

lemma gather_batch:
  assumes "items q = []" "maxsize q \<le> 0 \<or> int (length pmids) \<le> maxsize q"
    "mset order = mset (enumerate 0 pmids)"
    "\<forall>(i, pmid)\<in>set (enumerate 0 pmids). completes (det i pmid)"
  shows "\<exists>q'. gather det order q = (q', Returns ())
           \<and> items q' = batch_entries det (enumerate 0 pmids)
           \<and> map fst (items q') = map int [0..<length pmids]"
proof -
  have len: "length order = length pmids"
    using assms(3) by (metis length_enumerate size_mset)
  have set_eq: "set order = set (enumerate 0 pmids)" using assms(3) by (rule mset_eq_setD)
  have c: "\<forall>(i, pmid)\<in>set order. completes (det i pmid)" using assms(4) set_eq by simp
  have room: "maxsize q \<le> 0 \<or> int (length (items q) + length order) \<le> maxsize q"
    using assms(1,2) len by simp
  have srt: "sorted (map entry_key (items q))" using assms(1) by simp
  obtain q' where g: "gather det order q = (q', Returns ())"
    and m: "mset (items q') = mset (items q) + mset (batch_entries det order)"
    and sk: "sorted (map entry_key (items q'))"
    using gather_completes[OF c room srt] by blast
  have s: "sorted (map fst (items q'))" using sk by (rule sorted_key_fst)
  let ?T = "batch_entries det (enumerate 0 pmids)"
  have keys: "map fst ?T = map int [0..<length pmids]"
    using batch_entries_keys[OF assms(4)] by simp
  have m': "mset (items q') = mset ?T"
    using m assms(1) batch_entries_perm[OF assms(3)] by simp
  have sT: "sorted (map fst ?T)" unfolding keys by (simp add: sorted_map strict_sorted_iff)
  have dT: "distinct (map fst ?T)" unfolding keys by (simp add: distinct_map inj_on_def)
  have "items q' = ?T" by (rule sorted_keys_unique[OF s m' sT dT])
  then show ?thesis using g keys by simp
qed

lemma keyed_filter:
  assumes "map fst xs = map int [0..<n]" "(int k, r) \<in> set xs"
  shows "filter (\<lambda>x. fst x = int k) xs = [(int k, r)]"
proof -
  have d: "distinct (map fst xs)" unfolding assms(1) by (simp add: distinct_map inj_on_def)
  obtain j where j: "j < length xs" "xs ! j = (int k, r)"
    using assms(2) by (auto simp: in_set_conv_nth)
  have "xs = take j xs @ (int k, r) # drop (Suc j) xs"
    using j by (metis id_take_nth_drop)
  then obtain ys zs where x: "xs = ys @ (int k, r) # zs" by blast
  have "int k \<notin> fst ` set ys" "int k \<notin> fst ` set zs"
    using d unfolding x by auto
  then have "\<forall>x\<in>set ys. fst x \<noteq> int k" "\<forall>x\<in>set zs. fst x \<noteq> int k"
    by (metis imageI)+
  then have "filter (\<lambda>x. fst x = int k) ys = []" "filter (\<lambda>x. fst x = int k) zs = []"
    by (simp_all add: filter_empty_conv)
  then show ?thesis unfolding x by simp
qed

text \<open>
  C1: the claim asks for one entry per identifier, for every list of identifiers. The
  code does not give it: for the one identifier \<open>"11"\<close> whose detail page is fetched but
  has no \<open>main\<close> element, the task raises before any field is assigned, the \<open>finally\<close>
  clause raises \<open>UnboundLocalError\<close> while building the record, nothing is put, and the
  exception leaves \<open>getAllPapers\<close>: the queue holds no entry where the claim asks for one.
\<close>

theorem getAllPapers_page_without_main:
  "getAllPapers (\<lambda>p. Responds (Some (str_of ''11''))) (\<lambda>i pmid. Responds None) (\<lambda>tasks. tasks)
       \<lparr>maxsize = 1, items = []\<rparr> 1
       \<lparr>data_page = 0, result_queue = \<lparr>maxsize = 0, items = []\<rparr>, requested = []\<rparr>
     = (\<lparr>data_page = 1, result_queue = \<lparr>maxsize = 1, items = []\<rparr>, requested = [1]\<rparr>,
        Raises UnboundLocalError)"
  by (simp add: getAllPapers_def getPMIDs_def pmid_loop.simps finally_return_def slice_to_def
      split_def str_of_def isspace_def getPagesInfo_def)

text \<open>
  C4, as stated, does not hold: the record of a task whose fetch raises has the sentinel
  \<open>"Error"\<close> in six fields, and the address of the page in the seventh.
\<close>

theorem getPagesInfo_error_counterexample:
  "getPagesInfo 0 (str_of ''1'') (Fails TimeoutError) \<lparr>maxsize = 1, items = []\<rparr>
     = (\<lparr>maxsize = 1,
         items = [(0, \<lparr>title = str_of ''Error'', authors = str_of ''Error'',
                       date = str_of ''Error'', publication = str_of ''Error'',
                       abstract = str_of ''Error'', doi = str_of ''Error'',
                       web = str_of ''https://pubmed.ncbi.nlm.nih.gov/1''\<rparr>)]\<rparr>, Returns ())
   \<and> str_of ''https://pubmed.ncbi.nlm.nih.gov/1'' \<noteq> str_of ''Error''"
  by (simp add: getPagesInfo_def put_result_def put_def error_record_def base_url_def str_of_def Let_def)

text \<open>
  C4, amended: in a batch whose tasks all complete, a task whose fetch raises an exception
  does not stop the batch: all tasks return, the queue holds one entry per identifier, and
  exactly one entry has the rank of that task; its title, authors, date, publication,
  abstract and doi are \<open>"Error"\<close> and its link is the address of the page of the identifier.
\<close>

theorem gather_fetch_error:
  assumes "items q = []" "maxsize q \<le> 0 \<or> int (length pmids) \<le> maxsize q"
    "mset order = mset (enumerate 0 pmids)"
    "\<forall>(i, pmid)\<in>set (enumerate 0 pmids). completes (det i pmid)"
    "k < length pmids" "det k (pmids ! k) = Fails e"
  shows "\<exists>q'. gather det order q = (q', Returns ())
           \<and> length (items q') = length pmids
           \<and> filter (\<lambda>x. fst x = int k) (items q') = [(int k, error_record (pmids ! k))]
           \<and> error_record (pmids ! k)
               = \<lparr>title = str_of ''Error'', authors = str_of ''Error'', date = str_of ''Error'',
                  publication = str_of ''Error'', abstract = str_of ''Error'',
                  doi = str_of ''Error'', web = base_url @ pmids ! k\<rparr>"
proof -
  obtain q' where g: "gather det order q = (q', Returns ())"
    and i: "items q' = batch_entries det (enumerate 0 pmids)"
    and ks: "map fst (items q') = map int [0..<length pmids]"
    using gather_batch[OF assms(1-4)] by blast
  have n: "length (items q') = length pmids"
    using ks by (metis length_map length_upt minus_nat.diff_0)
  have t: "(k, pmids ! k) \<in> set (enumerate 0 pmids)"
    using assms(5) by (simp add: in_set_enumerate_eq)
  have em: "emits k (pmids ! k) (det k (pmids ! k)) = [(int k, error_record (pmids ! k))]"
    using assms(6) by (simp add: emits_def getPagesInfo_def put_result_def put_def)
  have "(int k, error_record (pmids ! k)) \<in> set (batch_entries det (enumerate 0 pmids))"
    unfolding batch_entries_def using t em by force
  then have f: "filter (\<lambda>x. fst x = int k) (items q') = [(int k, error_record (pmids ! k))]"
    using keyed_filter[OF ks] i by simp
  show ?thesis using g n f by (simp add: error_record_def Let_def)
qed

theorem gather_fetch_error_witness:
  "filter (\<lambda>x. fst x = 1)
     (items (fst (gather (\<lambda>i pmid. if i = 1 then Fails TimeoutError else Responds (Some page_a))
        (rev (enumerate 0 [str_of ''11'', str_of ''22'', str_of ''33'']))
        \<lparr>maxsize = 3, items = []\<rparr>)))
     = [(1, \<lparr>title = str_of ''Error'', authors = str_of ''Error'', date = str_of ''Error'',
              publication = str_of ''Error'', abstract = str_of ''Error'', doi = str_of ''Error'',
              web = str_of ''https://pubmed.ncbi.nlm.nih.gov/22''\<rparr>)]"
proof -
  let ?det = "\<lambda>(i::nat) (pmid::str). if i = 1 then Fails TimeoutError else Responds (Some page_a)"
  let ?q = "\<lparr>maxsize = 3, items = []\<rparr>"
  let ?pmids = "[str_of ''11'', str_of ''22'', str_of ''33'']"
  have h1: "items ?q = []" by simp
  have h2: "maxsize ?q \<le> 0 \<or> int (length ?pmids) \<le> maxsize ?q" by simp
  have h3: "mset (rev (enumerate 0 ?pmids)) = mset (enumerate 0 ?pmids)" by simp
  have h4: "\<forall>(i, pmid)\<in>set (enumerate 0 ?pmids). completes (?det i pmid)"
    by (simp add: completes_def page_a_def)
  have h5: "1 < length ?pmids" by simp
  have h6: "?det 1 (?pmids ! 1) = Fails TimeoutError" by simp
  obtain q' where g: "gather ?det (rev (enumerate 0 ?pmids)) ?q = (q', Returns ())"
    and f: "filter (\<lambda>x. fst x = int 1) (items q') = [(int 1, error_record (?pmids ! 1))]"
    and e: "error_record (?pmids ! 1)
               = \<lparr>title = str_of ''Error'', authors = str_of ''Error'', date = str_of ''Error'',
                  publication = str_of ''Error'', abstract = str_of ''Error'',
                  doi = str_of ''Error'', web = base_url @ ?pmids ! 1\<rparr>"
    using gather_fetch_error[where q = ?q and pmids = ?pmids and order = "rev (enumerate 0 ?pmids)"
        and det = ?det and k = 1 and e = TimeoutError, OF h1 h2 h3 h4 h5 h6] by blast
  have w: "base_url @ ?pmids ! 1 = str_of ''https://pubmed.ncbi.nlm.nih.gov/22''"
    by (simp add: base_url_def str_of_def)
  show ?thesis using g f e w by simp
qed

section \<open>The requested count of \<open>getAllPapers\<close>\<close>

lemma getPMIDs_one_requested:
  "requested (fst (getPMIDs lst 1 s)) = requested s @ [1]"
  by (simp add: pmid_loop.simps getPMIDs_def finally_return_def Let_def
      split: response.splits option.splits outcome.splits prod.splits)

lemma getAllPapers_requested:
  "requested (fst (getAllPapers lst det sched q num s))
     = requested (fst (getPMIDs lst (max num 1) (s\<lparr>result_queue := q\<rparr>)))"
  by (simp add: getAllPapers_def Let_def split: prod.splits outcome.splits)

text \<open>
  C10: for every \<open>num \<le> 0\<close>, \<open>getAllPapers\<close> does exactly what it does for \<open>num = 1\<close>: the
  count is raised to 1 before the identifiers are fetched, so exactly one listing page,
  page 1, is requested.
\<close>

theorem getAllPapers_clamps:
  assumes "num \<le> 0"
  shows "getAllPapers lst det sched q num s = getAllPapers lst det sched q 1 s
         \<and> requested (fst (getAllPapers lst det sched q num s)) = requested s @ [1]"
proof -
  have m: "max num 1 = 1" using assms by simp
  have "getAllPapers lst det sched q num s = getAllPapers lst det sched q 1 s"
    by (simp add: getAllPapers_def m)
  moreover have "requested (fst (getAllPapers lst det sched q num s)) = requested s @ [1]"
    using getAllPapers_requested[of lst det sched q num s] getPMIDs_one_requested[of lst "s\<lparr>result_queue := q\<rparr>"]
    by (simp add: m)
  ultimately show ?thesis by simp
qed

theorem getAllPapers_clamps_witness:
  "getAllPapers (\<lambda>p. Responds (Some (str_of ''11 22 33'')))
       (\<lambda>i pmid. Fails TimeoutError) rev \<lparr>maxsize = 1, items = []\<rparr> (- 3)
       \<lparr>data_page = 0, result_queue = \<lparr>maxsize = 0, items = []\<rparr>, requested = []\<rparr>
     = getAllPapers (\<lambda>p. Responds (Some (str_of ''11 22 33'')))
       (\<lambda>i pmid. Fails TimeoutError) rev \<lparr>maxsize = 1, items = []\<rparr> 1
       \<lparr>data_page = 0, result_queue = \<lparr>maxsize = 0, items = []\<rparr>, requested = []\<rparr>
   \<and> requested (fst (getAllPapers (\<lambda>p. Responds (Some (str_of ''11 22 33'')))
       (\<lambda>i pmid. Fails TimeoutError) rev \<lparr>maxsize = 1, items = []\<rparr> (- 3)
       \<lparr>data_page = 0, result_queue = \<lparr>maxsize = 0, items = []\<rparr>, requested = []\<rparr>)) = [1]"
proof -
  let ?lst = "\<lambda>p::int. Responds (Some (str_of ''11 22 33''))"
  let ?det = "\<lambda>(i::nat) (pmid::str). (Fails TimeoutError :: article option response)"
  let ?q = "\<lparr>maxsize = 1, items = []\<rparr>"
  let ?s = "\<lparr>data_page = 0, result_queue = \<lparr>maxsize = 0, items = []\<rparr>, requested = []\<rparr>"
  have h: "(- 3::int) \<le> 0" by simp
  have a: "getAllPapers ?lst ?det rev ?q (- 3) ?s = getAllPapers ?lst ?det rev ?q 1 ?s"
    and b: "requested (fst (getAllPapers ?lst ?det rev ?q (- 3) ?s)) = requested ?s @ [1]"
    using getAllPapers_clamps[OF h, of ?lst ?det rev ?q ?s] by blast+
  show ?thesis
  proof (rule conjI)
    show "getAllPapers ?lst ?det rev ?q (- 3) ?s = getAllPapers ?lst ?det rev ?q 1 ?s"
      by (rule a)
    show "requested (fst (getAllPapers ?lst ?det rev ?q (- 3) ?s)) = [1]"
      unfolding b by simp
  qed
qed

section \<open>Properties of \<open>downloadByDoiFile\<close>\<close>

lemma startswith_append: "startswith d p \<Longrightarrow> startswith (d @ ws) p"
  by (metis startswith_def append_eq_conv_conj append.assoc)

lemma startswith_doi_head:
  assumes "startswith d (str_of ''10.'')"
  shows "d \<noteq> [] \<and> \<not> isspace (hd d)"
  using assms by (cases d) (auto simp: startswith_def str_of_def isspace_def)

lemma strip_identifier:
  assumes "startswith d (str_of ''10.'')" "\<not> isspace (last d)" "list_all isspace ws"
  shows "strip (d @ ws) = d"
proof -
  have h: "d \<noteq> []" "\<not> isspace (hd d)" using startswith_doi_head[OF assms(1)] by simp_all
  have l: "lstrip (d @ ws) = d @ ws" using h by (cases d) (simp_all add: lstrip_def)
  have w: "\<forall>c\<in>set (rev ws). isspace c" using assms(3) by (simp add: list_all_iff)
  have "dropWhile isspace (rev ws @ rev d) = dropWhile isspace (rev d)"
    by (rule dropWhile_append2) (use w in auto)
  also have "\<dots> = rev d"
    using h(1) assms(2) by (cases "rev d") (simp_all add: last_rev[symmetric] hd_rev)
  finally have "rstrip (d @ ws) = d" by (simp add: rstrip_def)
  then show ?thesis by (simp add: strip_def l)
qed

lemma strip_twice:
  assumes "startswith d (str_of ''10.'')" "\<not> isspace (last d)" "list_all isspace ws"
  shows "strip (strip (d @ ws)) = d"
  using strip_identifier[OF assms] strip_identifier[OF assms(1,2), of "[]"] by simp

lemma doi_details_render:
  assumes "\<forall>l\<in>set ls. well_formed l"
  shows "doi_details (map render ls) = map (\<lambda>d. [Some d, None, Some d, None]) (identifiers ls)"
  using assms
proof (induction ls rule: identifiers.induct)
  case 1
  then show ?case by simp
next
  case (2 d ws ls)
  then have w: "startswith d (str_of ''10.'')" "\<not> isspace (last d)" "list_all isspace ws"
    by simp_all
  have "startswith (d @ ws) (str_of ''10.'')" using w(1) by (rule startswith_append)
  then show ?case using 2 strip_twice[OF w] by (simp add: Let_def)
next
  case (3 g ls)
  then show ?case by simp
qed

text \<open>
  C9: for a file of well-formed identifier lines and garbage lines, the loader builds one
  descriptor per identifier line, in the order of the file, with title and doi both equal
  to the identifier; the garbage lines add nothing.
\<close>

theorem downloadByDoiFile_round_trip:
  assumes "\<forall>l\<in>set ls. well_formed l"
  shows "downloadByDoiFile (Some (map render ls))
           = Some (map (\<lambda>d. [Some d, None, Some d, None]) (identifiers ls))
         \<and> length (doi_details (map render ls)) = length (identifiers ls)"
  using doi_details_render[OF assms] by (simp add: downloadByDoiFile_def)

theorem downloadByDoiFile_round_trip_witness:
  "downloadByDoiFile (Some [str_of ''10.1000/a'' @ [10], str_of ''# list of papers'' @ [10],
                            str_of '' 10.5/x'' @ [10], str_of ''10.2000/b  ''])
     = Some [[Some (str_of ''10.1000/a''), None, Some (str_of ''10.1000/a''), None],
             [Some (str_of ''10.2000/b''), None, Some (str_of ''10.2000/b''), None]]"
proof -
  let ?ls = "[Identifier (str_of ''10.1000/a'') [10], Garbage (str_of ''# list of papers'' @ [10]),
              Garbage (str_of '' 10.5/x'' @ [10]), Identifier (str_of ''10.2000/b'') (str_of ''  '')]"
  have h: "\<forall>l\<in>set ?ls. well_formed l"
    by (simp add: startswith_def str_of_def isspace_def)
  show ?thesis
    using downloadByDoiFile_round_trip[OF h] by (simp add: str_of_def)
qed

end
